theory Spec2Isabelle
  imports Complex_Main "HOL-Library.AList" "HOL-Library.Multiset"
begin

section \<open>Values\<close>

text \<open>
  A Python float (numpy float64 included, which subclasses it): a finite value, read as
  the real number it denotes, one of the two infinities, or NaN.  The program only
  compares floats, tests them for NaN and passes them on, so no rounding is involved.
\<close>

datatype pyfloat = Fin real | PosInf | NegInf | NaN

fun isnan :: "pyfloat \<Rightarrow> bool" where
  "isnan NaN = True"
| "isnan _ = False"

text \<open>The test \<^verbatim>\<open>p >= 0.5\<close>; every comparison with NaN is false.\<close>

fun ge_half :: "pyfloat \<Rightarrow> bool" where
  "ge_half (Fin r) = (1 / 2 \<le> r)"
| "ge_half PosInf = True"
| "ge_half NegInf = False"
| "ge_half NaN = False"

text \<open>
  The exceptions that leave \<^verbatim>\<open>BOCPDDetector\<close>: one raised inside the engine (of the
  engine's own kind \<open>'e\<close>), \<^verbatim>\<open>posterior[0]\<close> on an empty posterior, iterating over an
  object that is not iterable, looking up an attribute the object does not have, and
  reading a local variable that was never bound.
\<close>

datatype 'e error = EngineError 'e | IndexError | TypeError | AttributeError | UnboundLocalError

section \<open>The engine interface\<close>

text \<open>
  \<^verbatim>\<open>BOCD\<close> is imported from the package \<^verbatim>\<open>bayesian_changepoint_detection\<close>; the
  detector uses three of its operations: the constructor \<^verbatim>\<open>BOCD(hazard=...)\<close>,
  \<^verbatim>\<open>update(val)\<close>, which mutates the engine or raises, and \<^verbatim>\<open>get_posterior()\<close>.
  They are taken as parameters, over an engine state \<open>'s\<close>.
\<close>

record ('s, 'e) bocd =
  BOCD :: "real \<Rightarrow> 's"
  bocd_update :: "pyfloat \<Rightarrow> 's \<Rightarrow> 'e + 's"
  get_posterior :: "'s \<Rightarrow> pyfloat list"

section \<open>BOCPDDetector\<close>

record 's BOCPDDetector =
  hazard :: real
  detector :: 's
  posterior_history :: "pyfloat list list"

text \<open>\<^verbatim>\<open>__init__(self, hazard=250)\<close>\<close>

definition BOCPDDetector_init :: "('s, 'e) bocd \<Rightarrow> real \<Rightarrow> 's BOCPDDetector" where
  "BOCPDDetector_init eng h =
     \<lparr>hazard = h, detector = BOCD eng h, posterior_history = []\<rparr>"

text \<open>
  The argument of \<^verbatim>\<open>update\<close>: a Python float or int, an array of values, or any other
  object that is neither (a numpy integer scalar, say), which cannot be iterated over.
\<close>

datatype arg = Scalar pyfloat | Array "pyfloat list" | NotIterable

text \<open>\<^verbatim>\<open>for val in x: self.detector.update(val)\<close>; an exception ends the loop.\<close>

fun advance :: "('s, 'e) bocd \<Rightarrow> pyfloat list \<Rightarrow> 's \<Rightarrow> ('e + unit) \<times> 's" where
  "advance eng [] s = (Inr (), s)"
| "advance eng (val # vals) s =
     (case bocd_update eng val s of
        Inl e \<Rightarrow> (Inl e, s)
      | Inr s' \<Rightarrow> advance eng vals s')"

text \<open>
  \<^verbatim>\<open>update(self, x)\<close> returns the outcome (an exception or \<^verbatim>\<open>p_cp\<close>) and the detector as
  the call leaves it.  The posterior is appended to the history before
  \<^verbatim>\<open>posterior[0]\<close> is read.
\<close>

definition update :: "('s, 'e) bocd \<Rightarrow> arg \<Rightarrow> 's BOCPDDetector \<Rightarrow> ('e error + pyfloat) \<times> 's BOCPDDetector" where
  "update eng x d =
     (case (case x of Scalar v \<Rightarrow> Some [v] | Array vs \<Rightarrow> Some vs | NotIterable \<Rightarrow> None) of
        None \<Rightarrow> (Inl TypeError, d)
      | Some vals \<Rightarrow>
          (case advance eng vals (detector d) of
             (Inl e, s) \<Rightarrow> (Inl (EngineError e), d\<lparr>detector := s\<rparr>)
           | (Inr u, s) \<Rightarrow>
               (let posterior = get_posterior eng s;
                    d' = d\<lparr>detector := s, posterior_history := posterior_history d @ [posterior]\<rparr>
                in case posterior of
                     [] \<Rightarrow> (Inl IndexError, d')
                   | p_cp # rest \<Rightarrow> (Inr p_cp, d'))))"

text \<open>
  The loop of the orchestrator, \<^verbatim>\<open>for val in x: p_cp = detector.update(val)\<close>: each
  value is a float, so \<^verbatim>\<open>update\<close> takes its scalar branch.  \<open>p_cp\<close> is the local
  variable, unbound (\<open>None\<close>) until the first assignment; an exception ends the loop.
\<close>

fun feed :: "('s, 'e) bocd \<Rightarrow> pyfloat list \<Rightarrow> 's BOCPDDetector \<Rightarrow> pyfloat option
              \<Rightarrow> 'e error + (pyfloat option \<times> 's BOCPDDetector)" where
  "feed eng [] d p_cp = Inr (p_cp, d)"
| "feed eng (val # vals) d p_cp =
     (case update eng (Scalar val) d of
        (Inl e, d') \<Rightarrow> Inl e
      | (Inr p, d') \<Rightarrow> feed eng vals d' (Some p))"

text \<open>
  The probability sequence of a run: the outcome of each \<^verbatim>\<open>update\<close> call when the
  observations are fed one by one (a caller that catches an exception and goes on).
\<close>

fun replay :: "('s, 'e) bocd \<Rightarrow> pyfloat list \<Rightarrow> 's BOCPDDetector
                \<Rightarrow> ('e error + pyfloat) list \<times> 's BOCPDDetector" where
  "replay eng [] d = ([], d)"
| "replay eng (v # vs) d =
     (case update eng (Scalar v) d of
        (r, d') \<Rightarrow> (case replay eng vs d' of (rs, d'') \<Rightarrow> (r # rs, d'')))"




section \<open>The tabular store\<close>

text \<open>
  The DuckDB file holds the table \<^verbatim>\<open>daily_index\<close> (written by the feature job) and the
  table \<^verbatim>\<open>alerts\<close>, which does not exist (\<open>None\<close>) until the orchestrator creates it.
  A date is a day number; \<^verbatim>\<open>strftime('%Y-%m-%d')\<close> and the DATE column that reads the
  text back are each other's inverse, so the text form is identified with the day.
  The feature job writes a float into every column of a row, NaN included, so a cell
  is a float.  The rows of \<^verbatim>\<open>alerts\<close> are the parameters of the INSERT statements,
  in the order they were run.
\<close>

record daily_row =
  date :: nat
  capability :: pyfloat
  attention :: pyfloat
  market :: pyfloat
  regulatory :: pyfloat

record alert_row =
  alert_date :: nat
  capability_prob :: pyfloat
  attention_prob :: pyfloat
  market_prob :: pyfloat
  regulatory_prob :: pyfloat
  alert :: bool

record database =
  daily_index :: "daily_row list"
  alerts :: "alert_row list option"

text \<open>
  A pandas frame as the orchestrator uses it: the \<^verbatim>\<open>date\<close> column and the float columns
  by name.  A frame with no rows has no \<^verbatim>\<open>date\<close> entries; \<^verbatim>\<open>df.empty\<close> is true of it.
\<close>

record frame =
  date_col :: "nat list"
  num_cols :: "(string \<times> pyfloat list) list"

definition df_empty :: "frame \<Rightarrow> bool" where
  "df_empty df = (date_col df = [])"

text \<open>
  \<^verbatim>\<open>pd.DataFrame(rows)\<close> followed by the assignment of the five column names, which
  \<^verbatim>\<open>load_daily_indices\<close> does only when the frame is not empty.
\<close>

definition DataFrame :: "daily_row list \<Rightarrow> frame" where
  "DataFrame rows =
     (if rows = [] then \<lparr>date_col = [], num_cols = []\<rparr>
      else \<lparr>date_col = map date rows,
            num_cols = [(''capability'', map capability rows),
                        (''attention'', map attention rows),
                        (''market'', map market rows),
                        (''regulatory'', map regulatory rows)]\<rparr>)"

text \<open>
  \<^verbatim>\<open>SELECT * FROM daily_index ORDER BY date ASC LIMIT 180\<close>.  Rows of the same date
  keep their order in the table here; SQL leaves their order open.
\<close>

definition fetchall :: "database \<Rightarrow> daily_row list" where
  "fetchall db = take 180 (sort_key date (daily_index db))"

definition load_daily_indices :: "database \<Rightarrow> frame" where
  "load_daily_indices db = DataFrame (fetchall db)"

section \<open>detect_changepoints\<close>

text \<open>
  The dictionary \<^verbatim>\<open>results\<close>; \<^verbatim>\<open>changepoint_probs\<close> is a dictionary in insertion order.
  The empty dictionary \<^verbatim>\<open>{}\<close> that an empty frame gives is \<open>None\<close>.
\<close>

record results =
  results_date :: nat
  changepoint_probs :: "(string \<times> pyfloat) list"
  results_alert :: bool

text \<open>\<^verbatim>\<open>d.get(k, default)\<close>\<close>

definition dict_get :: "('k \<times> 'v) list \<Rightarrow> 'k \<Rightarrow> 'v \<Rightarrow> 'v" where
  "dict_get d k dflt = (case map_of d k of None \<Rightarrow> dflt | Some v \<Rightarrow> v)"

text \<open>The keys of \<^verbatim>\<open>detectors\<close>, in the order \<^verbatim>\<open>detectors.items()\<close> gives them.\<close>

definition index_names :: "string list" where
  "index_names = [''capability'', ''attention'', ''market'', ''regulatory'']"

text \<open>
  The loop over the indices.  Each index has its own detector, constructed with the
  default hazard and used for this index only.  \<open>p_cp\<close> is a local variable of the
  whole function, so it is threaded through.  \<^verbatim>\<open>float(p_cp)\<close> leaves a float as it is.
  An exception leaves the function at once.
\<close>

fun process_indices :: "('s, 'e) bocd \<Rightarrow> frame \<Rightarrow> string list \<Rightarrow> (string \<times> pyfloat) list
      \<Rightarrow> pyfloat option \<Rightarrow> 'e error + ((string \<times> pyfloat) list \<times> pyfloat option)" where
  "process_indices eng df [] probs p_cp = Inr (probs, p_cp)"
| "process_indices eng df (index_name # rest) probs p_cp =
     (case map_of (num_cols df) index_name of
        None \<Rightarrow> process_indices eng df rest probs p_cp
      | Some col \<Rightarrow>
          (let x = filter (\<lambda>v. \<not> isnan v) col in
           if length x > 0 then
             (case feed eng x (BOCPDDetector_init eng 250) p_cp of
                Inl e \<Rightarrow> Inl e
              | Inr (None, d) \<Rightarrow> Inl UnboundLocalError
              | Inr (Some p, d) \<Rightarrow>
                  process_indices eng df rest (AList.update index_name p probs) (Some p))
           else process_indices eng df rest probs p_cp))"

definition detect_changepoints :: "('s, 'e) bocd \<Rightarrow> frame \<Rightarrow> database
      \<Rightarrow> ('e error + results option) \<times> database" where
  "detect_changepoints eng df db =
     (if df_empty df then (Inr None, db)
      else
        (case process_indices eng df index_names [] None of
           Inl e \<Rightarrow> (Inl e, db)
         | Inr (probs, p_cp) \<Rightarrow>
             (let res = \<lparr>results_date = last (date_col df),
                         changepoint_probs = probs,
                         results_alert = list_ex ge_half (map snd probs)\<rparr>;
                  table = (case alerts db of None \<Rightarrow> [] | Some rows \<Rightarrow> rows);
                  row = \<lparr>alert_date = results_date res,
                         capability_prob = dict_get probs ''capability'' (Fin 0),
                         attention_prob = dict_get probs ''attention'' (Fin 0),
                         market_prob = dict_get probs ''market'' (Fin 0),
                         regulatory_prob = dict_get probs ''regulatory'' (Fin 0),
                         alert = results_alert res\<rparr>
              in (Inr (Some res), db\<lparr>alerts := Some (table @ [row])\<rparr>))))"

text \<open>
  \<^verbatim>\<open>send_alert\<close>: the list holds the calls of \<^verbatim>\<open>chat_postMessage\<close> made so far, each by
  the date and the probabilities its text is built from.  \<^verbatim>\<open>SLACK_WEBHOOK\<close> is what
  \<^verbatim>\<open>os.getenv\<close> gave: nothing, or a string, which is false when empty.
\<close>

record slack_post =
  post_date :: nat
  post_probs :: "(string \<times> pyfloat) list"

definition send_alert :: "string option \<Rightarrow> results option \<Rightarrow> slack_post list \<Rightarrow> slack_post list" where
  "send_alert webhook res sent =
     (case res of
        None \<Rightarrow> sent
      | Some r \<Rightarrow>
          if \<not> results_alert r \<or> webhook = None \<or> webhook = Some [] then sent
          else sent @ [\<lparr>post_date = results_date r, post_probs = changepoint_probs r\<rparr>])"

text \<open>The observations of an index that reach its detector: the column without its NaNs.\<close>

definition series :: "frame \<Rightarrow> string \<Rightarrow> pyfloat list" where
  "series df index_name =
     (case map_of (num_cols df) index_name of
        None \<Rightarrow> []
      | Some col \<Rightarrow> filter (\<lambda>v. \<not> isnan v) col)"

text \<open>The column of a row that \<^verbatim>\<open>load_daily_indices\<close> names so.\<close>

definition column :: "string \<Rightarrow> daily_row \<Rightarrow> pyfloat" where
  "column index_name r =
     (if index_name = ''capability'' then capability r
      else if index_name = ''attention'' then attention r
      else if index_name = ''market'' then market r
      else regulatory r)"

section \<open>The run-length posterior engine\<close>

text \<open>
  Modelled from the spec: the class \<^verbatim>\<open>BOCD\<close> is not among the sources (the detector
  imports it from a package), so the engine is written down from sections 4.1 to 4.3 of
  the specification, over the reals.  \<open>NumericalUnderflow\<close> is the failure kind of
  sections 4.3 (step 5) and 7, "numerical underflow in changepoint update".
\<close>

datatype engine_failure = NumericalUnderflow

text \<open>
  Modelled from the spec: the predictive model of section 4.1, a pluggable family: the
  statistics of a new hypothesis, the density of an observation under a hypothesis, and
  the update of a hypothesis's statistics with an observation.
\<close>

record 'st predictive_model =
  prior :: 'st
  density :: "pyfloat \<Rightarrow> 'st \<Rightarrow> real"
  absorb :: "pyfloat \<Rightarrow> 'st \<Rightarrow> 'st"

text \<open>
  Modelled from the spec: the state of section 4.3, the run-length posterior and one
  set of statistics per run length, with the configured expected run length \<open>lam\<close>.
\<close>

record 'st run_length_state =
  lam :: real
  run_posterior :: "real list"
  hypotheses :: "'st list"

text \<open>Modelled from the spec: the constant hazard \<open>1 / lam\<close> of section 4.2.\<close>

definition constant_hazard :: "real \<Rightarrow> nat \<Rightarrow> real" where
  "constant_hazard l r = 1 / l"

text \<open>
  Modelled from the spec: step 1 of section 4.3, for every run length \<open>r\<close> the mass
  \<open>posterior[r]\<close> times the predictive density of the observation under hypothesis \<open>r\<close>.
\<close>

definition weighted :: "'st predictive_model \<Rightarrow> pyfloat \<Rightarrow> 'st run_length_state
      \<Rightarrow> (nat \<times> real) list" where
  "weighted pm x s =
     enumerate 0 (map (\<lambda>(m, st). m * density pm x st) (zip (run_posterior s) (hypotheses s)))"

text \<open>Modelled from the spec: step 2, the mass of "the run continues to \<open>r + 1\<close>".\<close>

definition growth :: "'st predictive_model \<Rightarrow> pyfloat \<Rightarrow> 'st run_length_state \<Rightarrow> real list" where
  "growth pm x s = map (\<lambda>(r, w). w * (1 - constant_hazard (lam s) r)) (weighted pm x s)"

text \<open>Modelled from the spec: step 3, the mass of a changepoint, summed over all \<open>r\<close>.\<close>

definition changepoint_mass :: "'st predictive_model \<Rightarrow> pyfloat \<Rightarrow> 'st run_length_state \<Rightarrow> real" where
  "changepoint_mass pm x s =
     sum_list (map (\<lambda>(r, w). w * constant_hazard (lam s) r) (weighted pm x s))"

text \<open>Modelled from the spec: step 4, the unnormalized posterior over run lengths.\<close>

definition unnormalized :: "'st predictive_model \<Rightarrow> pyfloat \<Rightarrow> 'st run_length_state \<Rightarrow> real list" where
  "unnormalized pm x s = changepoint_mass pm x s # growth pm x s"

text \<open>Modelled from the spec: the total mass that step 5 divides by.\<close>

definition total_mass :: "'st predictive_model \<Rightarrow> pyfloat \<Rightarrow> 'st run_length_state \<Rightarrow> real" where
  "total_mass pm x s = sum_list (unnormalized pm x s)"

text \<open>
  Modelled from the spec: steps 5 and 6.  A total mass of at most \<open>eps\<close> is the
  numerical failure, reported; otherwise the posterior is the unnormalized one divided by
  the total, every hypothesis absorbs the observation, and run length 0 starts from the
  prior.  A failed step leaves the state as it was (section 5: the update is atomic).
\<close>

definition engine_step :: "'st predictive_model \<Rightarrow> real \<Rightarrow> pyfloat \<Rightarrow> 'st run_length_state
      \<Rightarrow> engine_failure + 'st run_length_state" where
  "engine_step pm eps x s =
     (if total_mass pm x s \<le> eps then Inl NumericalUnderflow
      else Inr (s\<lparr>run_posterior := map (\<lambda>m. m / total_mass pm x s) (unnormalized pm x s),
                  hypotheses := prior pm # map (absorb pm x) (hypotheses s)\<rparr>))"

text \<open>
  Modelled from the spec: the initial state of section 4.3, a point mass at run length
  0 with one hypothesis from the prior.
\<close>

definition engine_init :: "'st predictive_model \<Rightarrow> real \<Rightarrow> 'st run_length_state" where
  "engine_init pm l = \<lparr>lam = l, run_posterior = [1], hypotheses = [prior pm]\<rparr>"

text \<open>
  Modelled from the spec: the engine as the detector sees it; the posterior it reports
  is the run-length posterior, each mass a finite float.
\<close>

definition spec_engine :: "'st predictive_model \<Rightarrow> real
      \<Rightarrow> ('st run_length_state, engine_failure) bocd" where
  "spec_engine pm eps =
     \<lparr>BOCD = engine_init pm,
      bocd_update = engine_step pm eps,
      get_posterior = (\<lambda>s. map Fin (run_posterior s))\<rparr>"

text \<open>
  Modelled from the spec: the invariants of sections 3 and 8 on the state, one
  hypothesis per run length, no negative mass, total mass 1.
\<close>

definition proper :: "'st run_length_state \<Rightarrow> bool" where
  "proper s = (length (hypotheses s) = length (run_posterior s)
               \<and> list_all (\<lambda>m. 0 \<le> m) (run_posterior s)
               \<and> sum_list (run_posterior s) = 1)"

section \<open>A test double for the engine\<close>

text \<open>
  An engine for running the detector on concrete inputs: its state is the list of the
  observations it has seen, newest first, which it also gives as the posterior; it
  raises on an infinite observation.
\<close>

definition echo :: "(pyfloat list, unit) bocd" where
  "echo = \<lparr>BOCD = (\<lambda>h. []),
           bocd_update = (\<lambda>v s. if v = PosInf \<or> v = NegInf then Inl () else Inr (v # s)),
           get_posterior = (\<lambda>s. s)\<rparr>"

text \<open>
  A test table: \<open>k\<close> days, one row a day, the capability index rising by one a day
  but for a NaN on day 90, and the other three indices flat.
\<close>

definition ramp :: "nat \<Rightarrow> daily_row list" where
  "ramp k = map (\<lambda>i. \<lparr>date = i, capability = (if i = 90 then NaN else Fin (real i)),
                        attention = Fin 0, market = Fin 0, regulatory = Fin 0\<rparr>) [0..<k]"

text \<open>
  A test predictive model without statistics: it gives the observation 0 the density 1
  and every other observation the density 0.
\<close>

definition spike :: "unit predictive_model" where
  "spike = \<lparr>prior = (), density = (\<lambda>x st. if x = Fin 0 then 1 else 0), absorb = (\<lambda>x st. st)\<rparr>"

subsection \<open>Helper facts about the loops\<close>

lemma advance_chain:
  "length ss = length vs \<Longrightarrow>
   (\<forall>i<length vs. bocd_update eng (vs ! i) ((s # ss) ! i) = Inr (ss ! i)) \<Longrightarrow>
   advance eng vs s = (Inr (), last (s # ss))"
proof (induction vs arbitrary: s ss)
  case Nil
  then show ?case by simp
next
  case (Cons v vs)
  then obtain t ts where ss: "ss = t # ts"
    by (cases ss) auto
  from Cons.prems(2) have step: "bocd_update eng v s = Inr t"
    using ss by (auto dest: spec [of _ 0])
  have rest: "\<forall>i<length vs. bocd_update eng (vs ! i) ((t # ts) ! i) = Inr (ts ! i)"
  proof (intro allI impI)
    fix i assume "i < length vs"
    then have "Suc i < length (v # vs)" by simp
    with Cons.prems(2) have
      "bocd_update eng ((v # vs) ! Suc i) ((s # ss) ! Suc i) = Inr (ss ! Suc i)"
      by blast
    then show "bocd_update eng (vs ! i) ((t # ts) ! i) = Inr (ts ! i)"
      using ss by simp
  qed
  from Cons.prems(1) ss have "length ts = length vs" by simp
  from Cons.IH [OF this rest] step ss show ?case by simp
qed

lemma feed_append:
  "feed eng (xs @ ys) d p =
     (case feed eng xs d p of Inl e \<Rightarrow> Inl e | Inr (p', d') \<Rightarrow> feed eng ys d' p')"
proof (induction xs arbitrary: d p)
  case Nil
  then show ?case by simp
next
  case (Cons v vs)
  obtain r d1 where u: "update eng (Scalar v) d = (r, d1)"
    by (cases "update eng (Scalar v) d")
  show ?case
    using u Cons.IH by (cases r) simp_all
qed

lemma feed_history:
  "feed eng xs d p = Inr (q, d') \<Longrightarrow>
   length (posterior_history d') = length (posterior_history d) + length xs"
proof (induction xs arbitrary: d p)
  case Nil
  then show ?case by simp
next
  case (Cons v vs)
  obtain r d1 where u: "update eng (Scalar v) d = (r, d1)"
    by (cases "update eng (Scalar v) d")
  with Cons.prems obtain a where r: "r = Inr a"
    by (cases r) auto
  with Cons.prems u have f: "feed eng vs d1 (Some a) = Inr (q, d')"
    by simp
  from u r have "length (posterior_history d1) = Suc (length (posterior_history d))"
    by (auto simp: update_def Let_def split: sum.splits list.splits prod.splits)
  with Cons.IH [OF f] show ?case by simp
qed



subsection \<open>Helper facts about the orchestrator\<close>

lemma feed_rebinds:
  "xs \<noteq> [] \<Longrightarrow> feed eng xs d p = feed eng xs d None"
  by (cases xs) (auto split: prod.splits sum.splits)

lemma process_keys:
  "process_indices eng df names probs p = Inr (probs', p') \<Longrightarrow> distinct (map fst probs) \<Longrightarrow>
   distinct (map fst probs') \<and> fst ` set probs' \<subseteq> fst ` set probs \<union> set names"
proof (induction names arbitrary: probs p)
  case Nil
  then show ?case by auto
next
  case (Cons n ns)
  show ?case
  proof (cases "series df n = []")
    case True
    with Cons.prems have "process_indices eng df ns probs p = Inr (probs', p')"
      by (auto simp: series_def split: option.splits)
    from Cons.IH [OF this Cons.prems(2)] show ?thesis by auto
  next
    case False
    with Cons.prems obtain q where
      rec: "process_indices eng df ns (AList.update n q probs) (Some q) = Inr (probs', p')"
      by (auto simp: series_def Let_def split: option.splits sum.splits prod.splits)
    have "distinct (map fst (AList.update n q probs))"
      using Cons.prems(2) by (simp add: distinct_update)
    from Cons.IH [OF rec this] show ?thesis
      by (auto simp: dom_update)
  qed
qed

lemma process_lookup:
  "process_indices eng df names probs p = Inr (probs', p') \<Longrightarrow> distinct names \<Longrightarrow>
   (\<forall>n. n \<notin> set names \<longrightarrow> map_of probs' n = map_of probs n) \<and>
   (\<forall>n\<in>set names.
      if series df n = [] then map_of probs' n = map_of probs n
      else \<exists>q d. feed eng (series df n) (BOCPDDetector_init eng 250) None = Inr (Some q, d)
                 \<and> map_of probs' n = Some q)"
proof (induction names arbitrary: probs p)
  case Nil
  then show ?case by auto
next
  case (Cons n ns)
  from Cons.prems(2) have dn: "distinct ns" and nn: "n \<notin> set ns" by auto
  show ?case
  proof (cases "series df n = []")
    case True
    with Cons.prems have "process_indices eng df ns probs p = Inr (probs', p')"
      by (auto simp: series_def split: option.splits)
    from Cons.IH [OF this dn] True nn show ?thesis by auto
  next
    case False
    then obtain col where col: "map_of (num_cols df) n = Some col"
      and x: "series df n = filter (\<lambda>v. \<not> isnan v) col"
      by (auto simp: series_def split: option.splits)
    from False x Cons.prems(1) col obtain q d where
      fd: "feed eng (series df n) (BOCPDDetector_init eng 250) p = Inr (Some q, d)" and
      rec: "process_indices eng df ns (AList.update n q probs) (Some q) = Inr (probs', p')"
      by (auto simp: Let_def split: option.splits sum.splits prod.splits)
    have fd': "feed eng (series df n) (BOCPDDetector_init eng 250) None = Inr (Some q, d)"
      using fd feed_rebinds [OF False] by metis
    from Cons.IH [OF rec dn] have
      a: "\<forall>m. m \<notin> set ns \<longrightarrow> map_of probs' m = map_of (AList.update n q probs) m" and
      b: "\<forall>m\<in>set ns.
           if series df m = [] then map_of probs' m = map_of (AList.update n q probs) m
           else \<exists>q d. feed eng (series df m) (BOCPDDetector_init eng 250) None = Inr (Some q, d)
                 \<and> map_of probs' m = Some q"
      by auto
    have here: "map_of probs' n = Some q"
      using a nn by (simp add: update_conv')
    show ?thesis
    proof (intro conjI allI impI ballI)
      fix m assume "m \<notin> set (n # ns)"
      then show "map_of probs' m = map_of probs m"
        using a by (simp add: update_conv')
    next
      fix m assume m: "m \<in> set (n # ns)"
      show "if series df m = [] then map_of probs' m = map_of probs m
            else \<exists>q d. feed eng (series df m) (BOCPDDetector_init eng 250) None = Inr (Some q, d)
                 \<and> map_of probs' m = Some q"
      proof (cases "m = n")
        case True
        with False fd' here show ?thesis by auto
      next
        case neq: False
        with m have "m \<in> set ns" by simp
        with b neq show ?thesis by (auto simp: update_conv' split: if_splits)
      qed
    qed
  qed
qed

lemma any_ge_half:
  assumes "distinct (map fst probs)" and "fst ` set probs \<subseteq> set index_names"
  shows "list_ex ge_half (map snd probs) =
           (ge_half (dict_get probs ''capability'' (Fin 0))
            \<or> ge_half (dict_get probs ''attention'' (Fin 0))
            \<or> ge_half (dict_get probs ''market'' (Fin 0))
            \<or> ge_half (dict_get probs ''regulatory'' (Fin 0)))"
proof
  assume "list_ex ge_half (map snd probs)"
  then obtain k v where kv: "(k, v) \<in> set probs" and g: "ge_half v"
    by (auto simp: list_ex_iff)
  from kv assms(1) have "map_of probs k = Some v" by simp
  with g have "ge_half (dict_get probs k (Fin 0))"
    by (simp add: dict_get_def)
  moreover from kv assms(2) have "k \<in> set index_names" by force
  ultimately show "ge_half (dict_get probs ''capability'' (Fin 0))
            \<or> ge_half (dict_get probs ''attention'' (Fin 0))
            \<or> ge_half (dict_get probs ''market'' (Fin 0))
            \<or> ge_half (dict_get probs ''regulatory'' (Fin 0))"
    by (auto simp: index_names_def)
next
  have one: "ge_half (dict_get probs k (Fin 0)) \<Longrightarrow> list_ex ge_half (map snd probs)" for k
  proof -
    assume g: "ge_half (dict_get probs k (Fin 0))"
    then obtain v where "map_of probs k = Some v" and "ge_half v"
      by (cases "map_of probs k") (auto simp: dict_get_def)
    then have "(k, v) \<in> set probs" and "ge_half v"
      by (auto dest: map_of_SomeD)
    then show ?thesis
      by (force simp: list_ex_iff)
  qed
  assume "ge_half (dict_get probs ''capability'' (Fin 0))
            \<or> ge_half (dict_get probs ''attention'' (Fin 0))
            \<or> ge_half (dict_get probs ''market'' (Fin 0))
            \<or> ge_half (dict_get probs ''regulatory'' (Fin 0))"
  then show "list_ex ge_half (map snd probs)"
    using one by blast
qed

lemma detect_cases:
  "detect_changepoints eng df db = (Inr (Some res), db') \<Longrightarrow>
   \<exists>p. process_indices eng df index_names [] None = Inr (changepoint_probs res, p)
     \<and> \<not> df_empty df
     \<and> results_date res = last (date_col df)
     \<and> results_alert res = list_ex ge_half (map snd (changepoint_probs res))
     \<and> db' = db\<lparr>alerts := Some ((case alerts db of None \<Rightarrow> [] | Some rows \<Rightarrow> rows) @
          [\<lparr>alert_date = last (date_col df),
            capability_prob = dict_get (changepoint_probs res) ''capability'' (Fin 0),
            attention_prob = dict_get (changepoint_probs res) ''attention'' (Fin 0),
            market_prob = dict_get (changepoint_probs res) ''market'' (Fin 0),
            regulatory_prob = dict_get (changepoint_probs res) ''regulatory'' (Fin 0),
            alert = results_alert res\<rparr>])\<rparr>"
  by (auto simp: detect_changepoints_def Let_def split: if_splits sum.splits prod.splits)

lemma detect_failure:
  "detect_changepoints eng df db = (Inl e, db') \<Longrightarrow> db' = db"
  by (auto simp: detect_changepoints_def Let_def split: if_splits sum.splits prod.splits)

lemma detect_empty:
  "detect_changepoints eng df db = (Inr None, db') \<Longrightarrow> db' = db \<and> df_empty df"
  by (auto simp: detect_changepoints_def Let_def split: if_splits sum.splits prod.splits)

lemma update_scalar_ok:
  "update eng (Scalar v) d = (Inr p, d1) \<Longrightarrow>
   bocd_update eng v (detector d) = Inr (detector d1)
   \<and> (\<exists>ps. get_posterior eng (detector d1) = p # ps)"
  by (auto simp: update_def Let_def split: sum.splits list.splits prod.splits)

lemma feed_advance:
  "feed eng xs d p0 = Inr (Some p, d') \<Longrightarrow> xs \<noteq> [] \<Longrightarrow>
   advance eng xs (detector d) = (Inr (), detector d')
   \<and> (\<exists>ps. get_posterior eng (detector d') = p # ps)
   \<and> last (fst (replay eng xs d)) = Inr p"
proof (induction xs arbitrary: d p0)
  case Nil
  then show ?case by simp
next
  case (Cons v vs)
  obtain r d1 where u: "update eng (Scalar v) d = (r, d1)"
    by (cases "update eng (Scalar v) d")
  with Cons.prems(1) obtain a where r: "r = Inr a"
    by (cases r) auto
  with Cons.prems(1) u have f: "feed eng vs d1 (Some a) = Inr (Some p, d')"
    by simp
  from update_scalar_ok u r have
    step: "bocd_update eng v (detector d) = Inr (detector d1)" and
    post: "\<exists>ps. get_posterior eng (detector d1) = a # ps"
    by blast+
  show ?case
  proof (cases vs)
    case Nil
    with f have "a = p" "d1 = d'" by auto
    with step post u r Nil show ?thesis by simp
  next
    case (Cons w ws)
    then have ne: "vs \<noteq> []" by simp
    obtain rs d2 where rp: "replay eng vs d1 = (rs, d2)"
      by (cases "replay eng vs d1")
    have "rs \<noteq> []"
      using rp Cons by (auto split: prod.splits)
    with Cons.IH [OF f ne] step u rp show ?thesis by simp
  qed
qed

lemma fetchall_sorted: "sorted (map date (fetchall db))"
proof -
  have "sorted (map date (sort_key date (daily_index db)))" by simp
  then have "sorted (take 180 (map date (sort_key date (daily_index db)))
                     @ drop 180 (map date (sort_key date (daily_index db))))"
    by simp
  then have "sorted (take 180 (map date (sort_key date (daily_index db))))"
    unfolding sorted_append by blast
  then show ?thesis
    by (simp add: fetchall_def take_map)
qed

lemma fetchall_mset: "mset (fetchall db) \<subseteq># mset (daily_index db)"
proof -
  have "mset (take 180 (sort_key date (daily_index db)))
          + mset (drop 180 (sort_key date (daily_index db)))
        = mset (sort_key date (daily_index db))"
    by (metis append_take_drop_id mset_append)
  then have "mset (fetchall db) + mset (drop 180 (sort_key date (daily_index db)))
        = mset (daily_index db)"
    by (simp add: fetchall_def)
  then show ?thesis
    by (metis mset_subset_eq_add_left)
qed

lemma column_names:
  "column ''capability'' = capability"
  "column ''attention'' = attention"
  "column ''market'' = market"
  "column ''regulatory'' = regulatory"
  by (rule ext, simp add: column_def)+

lemma series_load:
  assumes "n \<in> set index_names"
  shows "series (load_daily_indices db) n =
           filter (\<lambda>v. \<not> isnan v) (map (column n) (fetchall db))"
proof (cases "fetchall db = []")
  case True
  then show ?thesis
    by (simp add: series_def load_daily_indices_def DataFrame_def)
next
  case False
  from assms consider "n = ''capability''" | "n = ''attention''" | "n = ''market''"
    | "n = ''regulatory''"
    by (auto simp: index_names_def)
  then show ?thesis
  proof cases
    case 1
    with False show ?thesis
      by (simp add: series_def load_daily_indices_def DataFrame_def column_names)
  next
    case 2
    with False show ?thesis
      by (simp add: series_def load_daily_indices_def DataFrame_def column_names)
  next
    case 3
    with False show ?thesis
      by (simp add: series_def load_daily_indices_def DataFrame_def column_names)
  next
    case 4
    with False show ?thesis
      by (simp add: series_def load_daily_indices_def DataFrame_def column_names)
  qed
qed

subsection \<open>Helper facts about the test double\<close>

lemma update_echo:
  "v \<noteq> PosInf \<Longrightarrow> v \<noteq> NegInf \<Longrightarrow>
   update echo (Scalar v) d =
     (Inr v, d\<lparr>detector := v # detector d,
               posterior_history := posterior_history d @ [v # detector d]\<rparr>)"
  by (simp add: update_def echo_def)

lemma feed_echo:
  "xs \<noteq> [] \<Longrightarrow> \<forall>x\<in>set xs. x \<noteq> PosInf \<and> x \<noteq> NegInf \<Longrightarrow>
   \<exists>d'. feed echo xs d p = Inr (Some (last xs), d')"
proof (induction xs arbitrary: d p)
  case Nil
  then show ?case by simp
next
  case (Cons v vs)
  then have v: "v \<noteq> PosInf" "v \<noteq> NegInf" by auto
  show ?case
  proof (cases vs)
    case Nil
    with v show ?thesis by (simp add: update_echo)
  next
    case (Cons w ws)
    then have "vs \<noteq> []" by simp
    moreover from Cons.prems have "\<forall>x\<in>set vs. x \<noteq> PosInf \<and> x \<noteq> NegInf" by simp
    ultimately obtain d' where
      "feed echo vs (d\<lparr>detector := v # detector d,
               posterior_history := posterior_history d @ [v # detector d]\<rparr>) (Some v)
         = Inr (Some (last vs), d')"
      using Cons.IH by blast
    with v Cons show ?thesis by (simp add: update_echo)
  qed
qed

lemma fetchall_ramp:
  "fetchall \<lparr>daily_index = ramp 181, alerts = a\<rparr> = ramp 180"
proof -
  have "map date (ramp 181) = [0..<181]"
    by (simp add: ramp_def o_def del: upt_rec_numeral)
  then have "sorted (map date (ramp 181))"
    by (simp del: upt_rec_numeral)
  then have "sort_key date (ramp 181) = ramp 181"
    by (rule sort_key_id_if_sorted)
  then show ?thesis
    by (simp add: fetchall_def) (simp add: ramp_def take_map del: upt_rec_numeral)
qed

lemma process_echo_total:
  "\<forall>n\<in>set names. \<forall>x\<in>set (series df n). x \<noteq> PosInf \<and> x \<noteq> NegInf \<Longrightarrow>
   \<exists>probs' p'. process_indices echo df names probs p = Inr (probs', p')"
proof (induction names arbitrary: probs p)
  case Nil
  then show ?case by simp
next
  case (Cons n ns)
  then have rest: "\<forall>n\<in>set ns. \<forall>x\<in>set (series df n). x \<noteq> PosInf \<and> x \<noteq> NegInf"
    by simp
  show ?case
  proof (cases "map_of (num_cols df) n")
    case None
    with Cons.IH [OF rest] show ?thesis by simp
  next
    case (Some col)
    then have s: "series df n = filter (\<lambda>v. \<not> isnan v) col"
      by (simp add: series_def)
    show ?thesis
    proof (cases "filter (\<lambda>v. \<not> isnan v) col = []")
      case True
      with Some Cons.IH [OF rest] show ?thesis by simp
    next
      case False
      from Cons.prems s have "\<forall>x\<in>set (filter (\<lambda>v. \<not> isnan v) col). x \<noteq> PosInf \<and> x \<noteq> NegInf"
        by simp
      from feed_echo [OF False this] obtain d' where
        "feed echo (filter (\<lambda>v. \<not> isnan v) col) (BOCPDDetector_init echo 250) p
           = Inr (Some (last (filter (\<lambda>v. \<not> isnan v) col)), d')"
        by blast
      with Some False Cons.IH [OF rest] show ?thesis by (simp add: Let_def)
    qed
  qed
qed

lemma series_ramp:
  assumes "n \<in> set index_names"
  shows "series (load_daily_indices \<lparr>daily_index = ramp 181, alerts = a\<rparr>) n =
           filter (\<lambda>v. \<not> isnan v) (map (column n) (ramp 180))"
  using series_load [OF assms, of "\<lparr>daily_index = ramp 181, alerts = a\<rparr>"]
  by (simp add: fetchall_ramp)

lemma capability_ramp:
  "length (filter (\<lambda>v. \<not> isnan v) (map capability (ramp 180))) = 179"
proof -
  have "filter (\<lambda>v. \<not> isnan v) (map capability (ramp 180))
          = map capability (filter (\<lambda>r. \<not> isnan (capability r)) (ramp 180))"
    by (simp add: filter_map o_def)
  also have "filter (\<lambda>r. \<not> isnan (capability r)) (ramp 180)
          = map (\<lambda>i. \<lparr>date = i, capability = (if i = 90 then NaN else Fin (real i)),
                        attention = Fin 0, market = Fin 0, regulatory = Fin 0\<rparr>)
              (filter (\<lambda>i. i \<noteq> 90) [0..<180])"
    by (simp add: ramp_def filter_map o_def del: upt_rec_numeral cong: filter_cong)
  finally have "length (filter (\<lambda>v. \<not> isnan v) (map capability (ramp 180)))
          = length (filter (\<lambda>i. i \<noteq> 90) [0..<(180::nat)])"
    by simp
  also have "[0..<(180::nat)] = [0..<90] @ 90 # [91..<180]"
    using upt_add_eq_append [of 0 90 90] upt_conv_Cons [of 90 180]
    by (simp del: upt_rec_numeral)
  also have "length (filter (\<lambda>i. i \<noteq> 90) ([0..<90] @ 90 # [91..<(180::nat)])) = 179"
    by (simp del: upt_rec_numeral)
  finally show ?thesis .
qed

subsection \<open>Helper facts about the run-length posterior engine\<close>

lemma total_mass_weights:
  "total_mass pm x s = sum_list (map snd (weighted pm x s))"
proof -
  have "sum_list (map (\<lambda>(r, w). w * c) ws) + sum_list (map (\<lambda>(r, w). w * (1 - c)) ws)
          = sum_list (map snd ws)" for c :: real and ws :: "(nat \<times> real) list"
    by (induction ws) (auto simp: algebra_simps)
  then show ?thesis
    unfolding total_mass_def unnormalized_def changepoint_mass_def growth_def
      constant_hazard_def sum_list.Cons .
qed

lemma weighted_nonneg:
  assumes "list_all (\<lambda>m. 0 \<le> m) (run_posterior s)" and "\<forall>st. 0 \<le> density pm x st"
  shows "\<forall>(r, w)\<in>set (weighted pm x s). 0 \<le> w"
  using assms
  by (auto simp: weighted_def in_set_enumerate_eq list_all_iff in_set_zip)

lemma elem_le_sum:
  fixes xs :: "real list"
  shows "\<forall>x\<in>set xs. 0 \<le> x \<Longrightarrow> m \<in> set xs \<Longrightarrow> m \<le> sum_list xs"
proof (induction xs)
  case Nil
  then show ?case by simp
next
  case (Cons a xs)
  then have "0 \<le> sum_list xs" by (simp add: sum_list_nonneg)
  with Cons show ?case by (cases "m = a") (auto)
qed

lemma proper_range:
  "proper s \<Longrightarrow> m \<in> set (run_posterior s) \<Longrightarrow> 0 \<le> m \<and> m \<le> 1"
  using elem_le_sum [of "run_posterior s" m]
  by (auto simp: proper_def list_all_iff)

lemma proper_init: "proper (engine_init pm l)"
  by (simp add: proper_def engine_init_def)

lemma step_proper:
  assumes step: "engine_step pm eps x s = Inr s'"
    and s: "proper s" and eps: "0 \<le> eps" and l: "1 \<le> lam s"
    and dens: "\<forall>st. 0 \<le> density pm x st"
  shows "proper s' \<and> lam s' = lam s"
proof -
  let ?t = "total_mass pm x s"
  from step have t: "eps < ?t"
    and s': "s' = s\<lparr>run_posterior := map (\<lambda>m. m / ?t) (unnormalized pm x s),
                     hypotheses := prior pm # map (absorb pm x) (hypotheses s)\<rparr>"
    by (auto simp: engine_step_def split: if_splits)
  from t eps have tpos: "0 < ?t" by simp
  from s have len: "length (hypotheses s) = length (run_posterior s)"
    and nn: "list_all (\<lambda>m. 0 \<le> m) (run_posterior s)"
    by (simp_all add: proper_def)
  have w: "\<forall>(r, w)\<in>set (weighted pm x s). 0 \<le> w"
    using weighted_nonneg [OF nn dens] .
  have h: "0 \<le> 1 / lam s" "0 \<le> 1 - 1 / lam s"
    using l by simp_all
  have g: "\<forall>m\<in>set (growth pm x s). 0 \<le> m"
    using w h by (auto simp: growth_def constant_hazard_def)
  have c: "0 \<le> changepoint_mass pm x s"
    unfolding changepoint_mass_def
    by (rule sum_list_nonneg) (use w h in \<open>auto simp: constant_hazard_def\<close>)
  have un: "\<forall>m\<in>set (unnormalized pm x s). 0 \<le> m"
    using g c by (simp add: unnormalized_def)
  have "length (unnormalized pm x s) = Suc (length (hypotheses s))"
    by (simp add: unnormalized_def growth_def weighted_def len)
  then have a: "length (hypotheses s') = length (run_posterior s')"
    by (simp add: s')
  have b: "list_all (\<lambda>m. 0 \<le> m) (run_posterior s')"
    using un tpos by (simp add: s' list_all_iff)
  have "sum_list (map (\<lambda>m. m / t) ms) = sum_list ms / t" for t :: real and ms
    by (induction ms) (simp_all add: add_divide_distrib)
  then have "sum_list (map (\<lambda>m. m / ?t) (unnormalized pm x s)) = sum_list (unnormalized pm x s) / ?t"
    .
  then have d: "sum_list (run_posterior s') = 1"
    using tpos by (simp add: s' total_mass_def)
  from a b d show ?thesis
    by (simp add: proper_def s')
qed

lemma spec_probability_range:
  assumes u: "update (spec_engine pm eps) (Scalar x) d = (Inr p, d')"
    and s: "proper (detector d)" and eps: "0 \<le> eps" and l: "1 \<le> lam (detector d)"
    and dens: "\<forall>st. 0 \<le> density pm x st"
  shows "(\<exists>r. p = Fin r \<and> 0 \<le> r \<and> r \<le> 1)
         \<and> proper (detector d') \<and> lam (detector d') = lam (detector d)"
proof -
  from update_scalar_ok [OF u] obtain ps where
    step: "engine_step pm eps x (detector d) = Inr (detector d')" and
    post: "map Fin (run_posterior (detector d')) = p # ps"
    by (auto simp: spec_engine_def)
  from step_proper [OF step s eps l dens] have
    pr: "proper (detector d')" and lm: "lam (detector d') = lam (detector d)"
    by simp_all
  from post obtain r rs where "run_posterior (detector d') = r # rs" and p: "p = Fin r"
    by (cases "run_posterior (detector d')") auto
  then have "r \<in> set (run_posterior (detector d'))" by simp
  from proper_range [OF pr this] p pr lm show ?thesis
    by blast
qed

section \<open>update\<close>

text \<open>
  C1.  When \<^verbatim>\<open>update\<close> is called with one observation value and the engine accepts it,
  the engine is advanced by exactly one step, the value returned is entry 0 of the
  posterior the engine then reports, and that whole posterior is appended to the
  detector's history (nothing else of the detector changes).
\<close>

theorem update_scalar:
  assumes "bocd_update eng v (detector d) = Inr s'"
    and "get_posterior eng s' = p # ps"
  shows "update eng (Scalar v) d =
           (Inr p, d\<lparr>detector := s', posterior_history := posterior_history d @ [p # ps]\<rparr>)"
  using assms by (simp add: update_def)

theorem update_scalar_witness:
  "bocd_update echo (Fin 1) (detector (BOCPDDetector_init echo 250)) = Inr [Fin 1]
   \<and> get_posterior echo [Fin 1] = Fin 1 # []
   \<and> update echo (Scalar (Fin 1)) (BOCPDDetector_init echo 250) =
       (Inr (Fin 1), \<lparr>hazard = 250, detector = [Fin 1], posterior_history = [[Fin 1]]\<rparr>)"
proof -
  have a: "bocd_update echo (Fin 1) (detector (BOCPDDetector_init echo 250)) = Inr [Fin 1]"
    by (simp add: echo_def BOCPDDetector_init_def)
  have b: "get_posterior echo [Fin 1] = Fin 1 # []"
    by (simp add: echo_def)
  show ?thesis
    using a b update_scalar [OF a b] by (simp add: BOCPDDetector_init_def echo_def)
qed

text \<open>
  C9.  When \<^verbatim>\<open>update\<close> is called with an array of n observations that the engine accepts
  one after the other (the states \<open>ss\<close> it passes through), the engine ends n steps
  further, the call returns entry 0 of the posterior after the last of them, and the
  history grows by exactly one posterior: that last one, not one per observation.
\<close>

theorem update_array:
  assumes "length ss = length vs"
    and "\<forall>i<length vs. bocd_update eng (vs ! i) ((detector d # ss) ! i) = Inr (ss ! i)"
    and "get_posterior eng (last (detector d # ss)) = p # ps"
  shows "update eng (Array vs) d =
           (Inr p, d\<lparr>detector := last (detector d # ss),
                      posterior_history := posterior_history d @ [p # ps]\<rparr>)
         \<and> length (posterior_history (snd (update eng (Array vs) d))) =
             Suc (length (posterior_history d))"
proof -
  have "advance eng vs (detector d) = (Inr (), last (detector d # ss))"
    using assms(1,2) by (rule advance_chain)
  with assms(3) show ?thesis
    by (simp add: update_def)
qed

theorem update_array_witness:
  "update echo (Array [Fin 1, Fin 2, Fin 3]) (BOCPDDetector_init echo 250) =
     (Inr (Fin 3), \<lparr>hazard = 250, detector = [Fin 3, Fin 2, Fin 1],
                    posterior_history = [[Fin 3, Fin 2, Fin 1]]\<rparr>)
   \<and> length (posterior_history
        (snd (update echo (Array [Fin 1, Fin 2, Fin 3]) (BOCPDDetector_init echo 250)))) = 1"
proof -
  let ?d = "BOCPDDetector_init echo 250"
  let ?vs = "[Fin 1, Fin 2, Fin 3]"
  let ?ss = "[[Fin 1], [Fin 2, Fin 1], [Fin 3, Fin 2, Fin 1]]"
  have a: "length ?ss = length ?vs" by simp
  have b: "\<forall>i<length ?vs. bocd_update echo (?vs ! i) ((detector ?d # ?ss) ! i) = Inr (?ss ! i)"
    by (simp add: All_less_Suc echo_def BOCPDDetector_init_def)
  have c: "get_posterior echo (last (detector ?d # ?ss)) = Fin 3 # [Fin 2, Fin 1]"
    by (simp add: echo_def)
  show ?thesis
    using update_array [OF a b c] by (simp add: BOCPDDetector_init_def)
qed

section \<open>Starting over\<close>




section \<open>The orchestrator\<close>

text \<open>
  C10.  On an empty frame \<^verbatim>\<open>detect_changepoints\<close> returns the empty dictionary and leaves
  the store as it was (the \<^verbatim>\<open>alerts\<close> table is neither created nor written), and
  \<^verbatim>\<open>send_alert\<close> posts nothing for that result, whatever the webhook.
\<close>

theorem empty_frame:
  assumes "df_empty df"
  shows "detect_changepoints eng df db = (Inr None, db)
         \<and> send_alert webhook None sent = sent"
  using assms by (simp add: detect_changepoints_def send_alert_def)

theorem empty_frame_witness:
  "df_empty (load_daily_indices \<lparr>daily_index = [], alerts = None\<rparr>)
   \<and> detect_changepoints echo (load_daily_indices \<lparr>daily_index = [], alerts = None\<rparr>)
        \<lparr>daily_index = [], alerts = None\<rparr> = (Inr None, \<lparr>daily_index = [], alerts = None\<rparr>)
   \<and> send_alert (Some ''hook'') None [] = []"
proof -
  have e: "df_empty (load_daily_indices \<lparr>daily_index = [], alerts = None\<rparr>)"
    by (simp add: df_empty_def load_daily_indices_def fetchall_def DataFrame_def)
  from empty_frame [OF e, of echo "\<lparr>daily_index = [], alerts = None\<rparr>" "Some ''hook''" "[]"] e
  show ?thesis by (simp add: send_alert_def)
qed

text \<open>
  C6.  When \<^verbatim>\<open>detect_changepoints\<close> returns a result, the store is the old one with one
  row appended to \<^verbatim>\<open>alerts\<close>: the date of the last row of the frame, for each of the four
  indices the probability collected for it (0.0 where none was), and the alert flag;
  and the flag is the disjunction over the four indices of "that probability is at
  least 0.5".
\<close>

theorem alert_record:
  assumes "detect_changepoints eng df db = (Inr (Some res), db')"
  shows "db' = db\<lparr>alerts := Some ((case alerts db of None \<Rightarrow> [] | Some rows \<Rightarrow> rows) @
          [\<lparr>alert_date = last (date_col df),
            capability_prob = dict_get (changepoint_probs res) ''capability'' (Fin 0),
            attention_prob = dict_get (changepoint_probs res) ''attention'' (Fin 0),
            market_prob = dict_get (changepoint_probs res) ''market'' (Fin 0),
            regulatory_prob = dict_get (changepoint_probs res) ''regulatory'' (Fin 0),
            alert = results_alert res\<rparr>])\<rparr>
     \<and> results_alert res =
          (ge_half (dict_get (changepoint_probs res) ''capability'' (Fin 0))
           \<or> ge_half (dict_get (changepoint_probs res) ''attention'' (Fin 0))
           \<or> ge_half (dict_get (changepoint_probs res) ''market'' (Fin 0))
           \<or> ge_half (dict_get (changepoint_probs res) ''regulatory'' (Fin 0)))"
proof -
  from detect_cases [OF assms] obtain p where
    pr: "process_indices eng df index_names [] None = Inr (changepoint_probs res, p)" and
    al: "results_alert res = list_ex ge_half (map snd (changepoint_probs res))" and
    db: "db' = db\<lparr>alerts := Some ((case alerts db of None \<Rightarrow> [] | Some rows \<Rightarrow> rows) @
          [\<lparr>alert_date = last (date_col df),
            capability_prob = dict_get (changepoint_probs res) ''capability'' (Fin 0),
            attention_prob = dict_get (changepoint_probs res) ''attention'' (Fin 0),
            market_prob = dict_get (changepoint_probs res) ''market'' (Fin 0),
            regulatory_prob = dict_get (changepoint_probs res) ''regulatory'' (Fin 0),
            alert = results_alert res\<rparr>])\<rparr>"
    by blast
  from process_keys [OF pr] have
    "distinct (map fst (changepoint_probs res))"
    "fst ` set (changepoint_probs res) \<subseteq> set index_names"
    by auto
  from any_ge_half [OF this] al db show ?thesis
    by simp
qed

theorem alert_record_witness:
  "detect_changepoints echo
     \<lparr>date_col = [7, 8],
      num_cols = [(''capability'', [Fin (1/10), Fin (6/10)]),
                  (''attention'', [Fin (7/10), Fin (3/10)]),
                  (''market'', [Fin (1/10), Fin (1/10)]),
                  (''regulatory'', [Fin (2/10), Fin (4/10)])]\<rparr>
     \<lparr>daily_index = [], alerts = None\<rparr>
   = (Inr (Some \<lparr>results_date = 8,
                 changepoint_probs = [(''capability'', Fin (6/10)), (''attention'', Fin (3/10)),
                                      (''market'', Fin (1/10)), (''regulatory'', Fin (4/10))],
                 results_alert = True\<rparr>),
      \<lparr>daily_index = [],
       alerts = Some [\<lparr>alert_date = 8, capability_prob = Fin (6/10),
                       attention_prob = Fin (3/10), market_prob = Fin (1/10),
                       regulatory_prob = Fin (4/10), alert = True\<rparr>]\<rparr>)
   \<and> (True = (ge_half (Fin (6/10)) \<or> ge_half (Fin (3/10)) \<or> ge_half (Fin (1/10))
               \<or> ge_half (Fin (4/10))))"
proof -
  let ?df = "\<lparr>date_col = [7, 8],
      num_cols = [(''capability'', [Fin (1/10), Fin (6/10)]),
                  (''attention'', [Fin (7/10), Fin (3/10)]),
                  (''market'', [Fin (1/10), Fin (1/10)]),
                  (''regulatory'', [Fin (2/10), Fin (4/10)])]\<rparr>"
  let ?db = "\<lparr>daily_index = [], alerts = None\<rparr>"
  let ?res = "\<lparr>results_date = 8,
                 changepoint_probs = [(''capability'', Fin (6/10)), (''attention'', Fin (3/10)),
                                      (''market'', Fin (1/10)), (''regulatory'', Fin (4/10))],
                 results_alert = True\<rparr>"
  let ?db' = "\<lparr>daily_index = [],
       alerts = Some [\<lparr>alert_date = 8, capability_prob = Fin (6/10),
                       attention_prob = Fin (3/10), market_prob = Fin (1/10),
                       regulatory_prob = Fin (4/10), alert = True\<rparr>]\<rparr>"
  have run: "detect_changepoints echo ?df ?db = (Inr (Some ?res), ?db')"
    by (simp add: detect_changepoints_def df_empty_def index_names_def
        BOCPDDetector_init_def echo_def update_def dict_get_def)
  from alert_record [OF run] run show ?thesis
    by (simp add: dict_get_def)
qed

text \<open>
  C4 as stated fails where an index was skipped: with a \<^verbatim>\<open>capability\<close> column of NaN only,
  no probability is computed for it, and the row written holds 0.0 in its place.
\<close>

theorem zero_fill_counterexample:
  "series \<lparr>date_col = [7],
           num_cols = [(''capability'', [NaN]), (''attention'', [Fin (7/10)]),
                       (''market'', [Fin (1/10)]), (''regulatory'', [Fin (2/10)])]\<rparr>
      ''capability'' = []
   \<and> detect_changepoints echo
       \<lparr>date_col = [7],
        num_cols = [(''capability'', [NaN]), (''attention'', [Fin (7/10)]),
                    (''market'', [Fin (1/10)]), (''regulatory'', [Fin (2/10)])]\<rparr>
       \<lparr>daily_index = [], alerts = Some []\<rparr>
     = (Inr (Some \<lparr>results_date = 7,
                   changepoint_probs = [(''attention'', Fin (7/10)), (''market'', Fin (1/10)),
                                        (''regulatory'', Fin (2/10))],
                   results_alert = True\<rparr>),
        \<lparr>daily_index = [],
         alerts = Some [\<lparr>alert_date = 7, capability_prob = Fin 0,
                         attention_prob = Fin (7/10), market_prob = Fin (1/10),
                         regulatory_prob = Fin (2/10), alert = True\<rparr>]\<rparr>)"
  by (simp add: series_def detect_changepoints_def df_empty_def index_names_def
      BOCPDDetector_init_def echo_def update_def dict_get_def)

text \<open>
  C4, amended.  When detection fails for an index, the exception leaves the function
  and the store stays as it was: no row is written.  When a row is written, every index
  that has observations had them fed through its detector without failure, and the row
  holds the probability of the last step; an index without observations (no column, or
  NaN only) has no probability and is recorded as 0.0.
\<close>

theorem record_only_computed:
  "case detect_changepoints eng df db of
     (Inl e, db') \<Rightarrow> db' = db
   | (Inr None, db') \<Rightarrow> db' = db \<and> df_empty df
   | (Inr (Some res), db') \<Rightarrow>
       alerts db' = Some ((case alerts db of None \<Rightarrow> [] | Some rows \<Rightarrow> rows) @
          [\<lparr>alert_date = results_date res,
            capability_prob = dict_get (changepoint_probs res) ''capability'' (Fin 0),
            attention_prob = dict_get (changepoint_probs res) ''attention'' (Fin 0),
            market_prob = dict_get (changepoint_probs res) ''market'' (Fin 0),
            regulatory_prob = dict_get (changepoint_probs res) ''regulatory'' (Fin 0),
            alert = results_alert res\<rparr>])
       \<and> (\<forall>n\<in>set index_names.
          if series df n = []
          then map_of (changepoint_probs res) n = None
               \<and> dict_get (changepoint_probs res) n (Fin 0) = Fin 0
          else \<exists>q d. feed eng (series df n) (BOCPDDetector_init eng 250) None = Inr (Some q, d)
                 \<and> dict_get (changepoint_probs res) n (Fin 0) = q)"
proof (cases "detect_changepoints eng df db")
  case (Pair r db')
  show ?thesis
  proof (cases r)
    case (Inl e)
    with Pair detect_failure [of eng df db e db'] show ?thesis by simp
  next
    case (Inr ro)
    show ?thesis
    proof (cases ro)
      case None
      with Pair Inr detect_empty [of eng df db db'] show ?thesis by simp
    next
      case (Some res)
      with Pair Inr have run: "detect_changepoints eng df db = (Inr (Some res), db')"
        by simp
      from detect_cases [OF run] obtain p where
        pr: "process_indices eng df index_names [] None = Inr (changepoint_probs res, p)" and
        row: "alerts db' = Some ((case alerts db of None \<Rightarrow> [] | Some rows \<Rightarrow> rows) @
          [\<lparr>alert_date = results_date res,
            capability_prob = dict_get (changepoint_probs res) ''capability'' (Fin 0),
            attention_prob = dict_get (changepoint_probs res) ''attention'' (Fin 0),
            market_prob = dict_get (changepoint_probs res) ''market'' (Fin 0),
            regulatory_prob = dict_get (changepoint_probs res) ''regulatory'' (Fin 0),
            alert = results_alert res\<rparr>])"
        by auto
      have "distinct index_names" by (simp add: index_names_def)
      from process_lookup [OF pr this] have L:
        "\<forall>n\<in>set index_names.
          if series df n = [] then map_of (changepoint_probs res) n = None
          else \<exists>q d. feed eng (series df n) (BOCPDDetector_init eng 250) None = Inr (Some q, d)
                 \<and> map_of (changepoint_probs res) n = Some q"
        by (auto split: if_splits)
      have "\<forall>n\<in>set index_names.
          if series df n = []
          then map_of (changepoint_probs res) n = None
               \<and> dict_get (changepoint_probs res) n (Fin 0) = Fin 0
          else \<exists>q d. feed eng (series df n) (BOCPDDetector_init eng 250) None = Inr (Some q, d)
                 \<and> dict_get (changepoint_probs res) n (Fin 0) = q"
      proof
        fix n assume n: "n \<in> set index_names"
        show "if series df n = []
          then map_of (changepoint_probs res) n = None
               \<and> dict_get (changepoint_probs res) n (Fin 0) = Fin 0
          else \<exists>q d. feed eng (series df n) (BOCPDDetector_init eng 250) None = Inr (Some q, d)
                 \<and> dict_get (changepoint_probs res) n (Fin 0) = q"
        proof (cases "series df n = []")
          case True
          with L n show ?thesis by (simp add: dict_get_def)
        next
          case False
          with L n obtain q d where
            "feed eng (series df n) (BOCPDDetector_init eng 250) None = Inr (Some q, d)"
            "map_of (changepoint_probs res) n = Some q"
            by force
          then have "feed eng (series df n) (BOCPDDetector_init eng 250) None = Inr (Some q, d)
                 \<and> dict_get (changepoint_probs res) n (Fin 0) = q"
            by (simp add: dict_get_def)
          with False show ?thesis by auto
        qed
      qed
      with run row show ?thesis by simp
    qed
  qed
qed

theorem record_only_computed_witness:
  "detect_changepoints echo
       \<lparr>date_col = [7, 8],
        num_cols = [(''capability'', [Fin (1/10), Fin (6/10)]), (''attention'', [NaN, NaN]),
                    (''regulatory'', [Fin (2/10), PosInf])]\<rparr>
       \<lparr>daily_index = [], alerts = Some []\<rparr>
     = (Inl (EngineError ()), \<lparr>daily_index = [], alerts = Some []\<rparr>)
   \<and> detect_changepoints echo
       \<lparr>date_col = [7, 8],
        num_cols = [(''capability'', [Fin (1/10), Fin (6/10)]), (''attention'', [NaN, NaN]),
                    (''regulatory'', [Fin (2/10), Fin (3/10)])]\<rparr>
       \<lparr>daily_index = [], alerts = Some []\<rparr>
     = (Inr (Some \<lparr>results_date = 8,
                   changepoint_probs = [(''capability'', Fin (6/10)), (''regulatory'', Fin (3/10))],
                   results_alert = True\<rparr>),
        \<lparr>daily_index = [],
         alerts = Some [\<lparr>alert_date = 8, capability_prob = Fin (6/10),
                         attention_prob = Fin 0, market_prob = Fin 0,
                         regulatory_prob = Fin (3/10), alert = True\<rparr>]\<rparr>)
   \<and> feed echo [Fin (1/10), Fin (6/10)] (BOCPDDetector_init echo 250) None =
       Inr (Some (Fin (6/10)),
            \<lparr>hazard = 250, detector = [Fin (6/10), Fin (1/10)],
             posterior_history = [[Fin (1/10)], [Fin (6/10), Fin (1/10)]]\<rparr>)"
proof -
  let ?db = "\<lparr>daily_index = [], alerts = Some []\<rparr>"
  let ?bad = "\<lparr>date_col = [7, 8],
        num_cols = [(''capability'', [Fin (1/10), Fin (6/10)]), (''attention'', [NaN, NaN]),
                    (''regulatory'', [Fin (2/10), PosInf])]\<rparr>"
  let ?good = "\<lparr>date_col = [7, 8],
        num_cols = [(''capability'', [Fin (1/10), Fin (6/10)]), (''attention'', [NaN, NaN]),
                    (''regulatory'', [Fin (2/10), Fin (3/10)])]\<rparr>"
  have bad: "fst (detect_changepoints echo ?bad ?db) = Inl (EngineError ())"
    by (simp add: detect_changepoints_def df_empty_def index_names_def
        BOCPDDetector_init_def echo_def update_def dict_get_def)
  have good: "detect_changepoints echo ?good ?db
     = (Inr (Some \<lparr>results_date = 8,
                   changepoint_probs = [(''capability'', Fin (6/10)), (''regulatory'', Fin (3/10))],
                   results_alert = True\<rparr>),
        \<lparr>daily_index = [],
         alerts = Some [\<lparr>alert_date = 8, capability_prob = Fin (6/10),
                         attention_prob = Fin 0, market_prob = Fin 0,
                         regulatory_prob = Fin (3/10), alert = True\<rparr>]\<rparr>)"
    by (simp add: detect_changepoints_def df_empty_def index_names_def
        BOCPDDetector_init_def echo_def update_def dict_get_def)
  have unchanged: "snd (detect_changepoints echo ?bad ?db) = ?db"
    using record_only_computed [where eng = echo and df = ?bad and db = ?db] bad
    by (cases "detect_changepoints echo ?bad ?db") simp
  have fd: "feed echo [Fin (1/10), Fin (6/10)] (BOCPDDetector_init echo 250) None =
       Inr (Some (Fin (6/10)),
            \<lparr>hazard = 250, detector = [Fin (6/10), Fin (1/10)],
             posterior_history = [[Fin (1/10)], [Fin (6/10), Fin (1/10)]]\<rparr>)"
    by (simp add: BOCPDDetector_init_def echo_def update_def)
  from bad unchanged good fd show ?thesis
    by (simp add: prod_eq_iff)
qed

text \<open>
  C5 as stated fails on a table of 181 days with a NaN in the capability column on one
  of them: the detector of the capability index is fed 179 observations, in 179 calls
  of \<^verbatim>\<open>update\<close>, and the probability collected is the outcome of feeding these.
\<close>

theorem window_counterexample:
  "length (daily_index \<lparr>daily_index = ramp 181, alerts = None\<rparr>) = 181
   \<and> length (series (load_daily_indices \<lparr>daily_index = ramp 181, alerts = None\<rparr>)
               ''capability'') = 179
   \<and> (case detect_changepoints echo
                  (load_daily_indices \<lparr>daily_index = ramp 181, alerts = None\<rparr>)
                  \<lparr>daily_index = ramp 181, alerts = None\<rparr> of
         (Inr (Some res), db') \<Rightarrow>
            map_sum id (\<lambda>(p, d). (p, length (posterior_history d)))
              (feed echo
                 (series (load_daily_indices \<lparr>daily_index = ramp 181, alerts = None\<rparr>)
                    ''capability'')
                 (BOCPDDetector_init echo 250) None)
            = Inr (map_of (changepoint_probs res) ''capability'', 179)
       | _ \<Rightarrow> False)"
proof -
  let ?db = "\<lparr>daily_index = ramp 181, alerts = None\<rparr>"
  let ?df = "load_daily_indices ?db"
  let ?S = "series ?df ''capability''"
  have len: "length (daily_index ?db) = 181"
    by (simp add: ramp_def del: upt_rec_numeral)
  have cap: "?S = filter (\<lambda>v. \<not> isnan v) (map capability (ramp 180))"
    using series_ramp [of "''capability''" None] by (simp add: index_names_def column_names)
  have slen: "length ?S = 179"
    by (simp only: cap capability_ramp)
  then have ne: "?S \<noteq> []"
    by auto
  have fin: "\<forall>n\<in>set index_names. \<forall>x\<in>set (series ?df n). x \<noteq> PosInf \<and> x \<noteq> NegInf"
  proof
    fix n assume n: "n \<in> set index_names"
    show "\<forall>x\<in>set (series ?df n). x \<noteq> PosInf \<and> x \<noteq> NegInf"
      unfolding series_ramp [OF n] by (auto simp: ramp_def column_def)
  qed
  from process_echo_total [OF fin] obtain probs p where
    pr: "process_indices echo ?df index_names [] None = Inr (probs, p)"
    by blast
  have "distinct index_names" by (simp add: index_names_def)
  from process_lookup [OF pr this] ne obtain q d where
    fq: "feed echo ?S (BOCPDDetector_init echo 250) None = Inr (Some q, d)"
    and mq: "map_of probs ''capability'' = Some q"
    by (auto simp: index_names_def split: if_splits)
  from feed_history [OF fq] slen have hist: "length (posterior_history d) = 179"
    by (simp add: BOCPDDetector_init_def)
  have nonempty: "\<not> df_empty ?df"
    by (simp add: df_empty_def load_daily_indices_def DataFrame_def fetchall_ramp)
       (simp add: ramp_def del: upt_rec_numeral)
  have third: "(case detect_changepoints echo ?df ?db of
         (Inr (Some res), db') \<Rightarrow>
            map_sum id (\<lambda>(p, d). (p, length (posterior_history d)))
              (feed echo ?S (BOCPDDetector_init echo 250) None)
            = Inr (map_of (changepoint_probs res) ''capability'', 179)
       | _ \<Rightarrow> False)"
    using nonempty pr mq fq hist by (simp add: detect_changepoints_def Let_def)
  from len slen third show ?thesis
    by blast
qed

text \<open>
  C5, amended.  The orchestrator works on rows of \<^verbatim>\<open>daily_index\<close> in ascending order of
  date: all of them when the table holds at most 180, and 180 of them otherwise.  When
  a result is returned, each index that has an observation among these rows has had the
  values of its column in them, NaNs left out, fed through its own newly constructed
  detector in that order: the engine was advanced over exactly this series, and the
  probability collected for the index is the one returned at the last step, entry 0 of
  the posterior the engine then reports.
\<close>

theorem feeds_loaded_rows:
  assumes run: "detect_changepoints eng (load_daily_indices db) db = (Inr (Some res), db')"
    and n: "n \<in> set index_names"
    and data: "series (load_daily_indices db) n \<noteq> []"
  shows "sorted (map date (fetchall db))
       \<and> length (fetchall db) = min 180 (length (daily_index db))
       \<and> mset (fetchall db) \<subseteq># mset (daily_index db)
       \<and> (length (daily_index db) \<le> 180 \<longrightarrow> mset (fetchall db) = mset (daily_index db))
       \<and> series (load_daily_indices db) n =
           filter (\<lambda>v. \<not> isnan v) (map (column n) (fetchall db))
       \<and> (\<exists>p d. feed eng (series (load_daily_indices db) n) (BOCPDDetector_init eng 250) None
                   = Inr (Some p, d)
              \<and> advance eng (series (load_daily_indices db) n) (BOCD eng 250)
                   = (Inr (), detector d)
              \<and> (\<exists>ps. get_posterior eng (detector d) = p # ps)
              \<and> last (fst (replay eng (series (load_daily_indices db) n)
                                (BOCPDDetector_init eng 250))) = Inr p
              \<and> map_of (changepoint_probs res) n = Some p)"
proof -
  let ?S = "series (load_daily_indices db) n"
  from detect_cases [OF run] obtain p0 where
    pr: "process_indices eng (load_daily_indices db) index_names [] None
           = Inr (changepoint_probs res, p0)"
    by blast
  have "distinct index_names" by (simp add: index_names_def)
  from process_lookup [OF pr this] n data obtain p d where
    fd: "feed eng ?S (BOCPDDetector_init eng 250) None = Inr (Some p, d)" and
    mp: "map_of (changepoint_probs res) n = Some p"
    by (auto split: if_splits)
  from feed_advance [OF fd data] have
    "advance eng ?S (BOCD eng 250) = (Inr (), detector d)"
    "\<exists>ps. get_posterior eng (detector d) = p # ps"
    "last (fst (replay eng ?S (BOCPDDetector_init eng 250))) = Inr p"
    by (simp_all add: BOCPDDetector_init_def)
  with fd mp have
    "\<exists>p d. feed eng ?S (BOCPDDetector_init eng 250) None = Inr (Some p, d)
              \<and> advance eng ?S (BOCD eng 250) = (Inr (), detector d)
              \<and> (\<exists>ps. get_posterior eng (detector d) = p # ps)
              \<and> last (fst (replay eng ?S (BOCPDDetector_init eng 250))) = Inr p
              \<and> map_of (changepoint_probs res) n = Some p"
    by blast
  moreover have "length (fetchall db) = min 180 (length (daily_index db))"
    by (simp add: fetchall_def min.commute)
  moreover have "length (daily_index db) \<le> 180 \<longrightarrow> mset (fetchall db) = mset (daily_index db)"
    by (simp add: fetchall_def)
  ultimately show ?thesis
    using fetchall_sorted [of db] fetchall_mset [of db] series_load [OF n, of db]
    by blast
qed

theorem feeds_loaded_rows_witness:
  "map date (fetchall
      \<lparr>daily_index =
         [\<lparr>date = 2, capability = Fin (6/10), attention = Fin 0, market = Fin 0, regulatory = Fin 0\<rparr>,
          \<lparr>date = 0, capability = Fin (2/10), attention = Fin 0, market = Fin 0, regulatory = Fin 0\<rparr>,
          \<lparr>date = 1, capability = NaN, attention = Fin 0, market = Fin 0, regulatory = Fin 0\<rparr>],
       alerts = None\<rparr>) = [0, 1, 2]
   \<and> length (fetchall
      \<lparr>daily_index =
         [\<lparr>date = 2, capability = Fin (6/10), attention = Fin 0, market = Fin 0, regulatory = Fin 0\<rparr>,
          \<lparr>date = 0, capability = Fin (2/10), attention = Fin 0, market = Fin 0, regulatory = Fin 0\<rparr>,
          \<lparr>date = 1, capability = NaN, attention = Fin 0, market = Fin 0, regulatory = Fin 0\<rparr>],
       alerts = None\<rparr>) = 3
   \<and> mset (fetchall
      \<lparr>daily_index =
         [\<lparr>date = 2, capability = Fin (6/10), attention = Fin 0, market = Fin 0, regulatory = Fin 0\<rparr>,
          \<lparr>date = 0, capability = Fin (2/10), attention = Fin 0, market = Fin 0, regulatory = Fin 0\<rparr>,
          \<lparr>date = 1, capability = NaN, attention = Fin 0, market = Fin 0, regulatory = Fin 0\<rparr>],
       alerts = None\<rparr>) = mset (daily_index
      \<lparr>daily_index =
         [\<lparr>date = 2, capability = Fin (6/10), attention = Fin 0, market = Fin 0, regulatory = Fin 0\<rparr>,
          \<lparr>date = 0, capability = Fin (2/10), attention = Fin 0, market = Fin 0, regulatory = Fin 0\<rparr>,
          \<lparr>date = 1, capability = NaN, attention = Fin 0, market = Fin 0, regulatory = Fin 0\<rparr>],
       alerts = None\<rparr>)
   \<and> series (load_daily_indices
      \<lparr>daily_index =
         [\<lparr>date = 2, capability = Fin (6/10), attention = Fin 0, market = Fin 0, regulatory = Fin 0\<rparr>,
          \<lparr>date = 0, capability = Fin (2/10), attention = Fin 0, market = Fin 0, regulatory = Fin 0\<rparr>,
          \<lparr>date = 1, capability = NaN, attention = Fin 0, market = Fin 0, regulatory = Fin 0\<rparr>],
       alerts = None\<rparr>) ''capability'' = [Fin (2/10), Fin (6/10)]
   \<and> fst (detect_changepoints echo (load_daily_indices
      \<lparr>daily_index =
         [\<lparr>date = 2, capability = Fin (6/10), attention = Fin 0, market = Fin 0, regulatory = Fin 0\<rparr>,
          \<lparr>date = 0, capability = Fin (2/10), attention = Fin 0, market = Fin 0, regulatory = Fin 0\<rparr>,
          \<lparr>date = 1, capability = NaN, attention = Fin 0, market = Fin 0, regulatory = Fin 0\<rparr>],
       alerts = None\<rparr>)
      \<lparr>daily_index =
         [\<lparr>date = 2, capability = Fin (6/10), attention = Fin 0, market = Fin 0, regulatory = Fin 0\<rparr>,
          \<lparr>date = 0, capability = Fin (2/10), attention = Fin 0, market = Fin 0, regulatory = Fin 0\<rparr>,
          \<lparr>date = 1, capability = NaN, attention = Fin 0, market = Fin 0, regulatory = Fin 0\<rparr>],
       alerts = None\<rparr>) =
       Inr (Some \<lparr>results_date = 2,
               changepoint_probs = [(''capability'', Fin (6/10)), (''attention'', Fin 0),
                                    (''market'', Fin 0), (''regulatory'', Fin 0)],
               results_alert = True\<rparr>)
   \<and> feed echo [Fin (2/10), Fin (6/10)] (BOCPDDetector_init echo 250) None =
       Inr (Some (Fin (6/10)),
            \<lparr>hazard = 250, detector = [Fin (6/10), Fin (2/10)],
             posterior_history = [[Fin (2/10)], [Fin (6/10), Fin (2/10)]]\<rparr>)"
proof -
  let ?db = "\<lparr>daily_index =
         [\<lparr>date = 2, capability = Fin (6/10), attention = Fin 0, market = Fin 0, regulatory = Fin 0\<rparr>,
          \<lparr>date = 0, capability = Fin (2/10), attention = Fin 0, market = Fin 0, regulatory = Fin 0\<rparr>,
          \<lparr>date = 1, capability = NaN, attention = Fin 0, market = Fin 0, regulatory = Fin 0\<rparr>],
       alerts = None\<rparr>"
  let ?res = "\<lparr>results_date = 2,
               changepoint_probs = [(''capability'', Fin (6/10)), (''attention'', Fin 0),
                                    (''market'', Fin 0), (''regulatory'', Fin 0)],
               results_alert = True\<rparr>"
  let ?db' = "?db\<lparr>alerts := Some [\<lparr>alert_date = 2, capability_prob = Fin (6/10),
                 attention_prob = Fin 0, market_prob = Fin 0, regulatory_prob = Fin 0,
                 alert = True\<rparr>]\<rparr>"
  have fetched: "fetchall ?db =
         [\<lparr>date = 0, capability = Fin (2/10), attention = Fin 0, market = Fin 0, regulatory = Fin 0\<rparr>,
          \<lparr>date = 1, capability = NaN, attention = Fin 0, market = Fin 0, regulatory = Fin 0\<rparr>,
          \<lparr>date = 2, capability = Fin (6/10), attention = Fin 0, market = Fin 0, regulatory = Fin 0\<rparr>]"
    by (simp add: fetchall_def)
  have run: "detect_changepoints echo (load_daily_indices ?db) ?db = (Inr (Some ?res), ?db')"
    by (simp only: load_daily_indices_def fetched)
       (simp add: DataFrame_def detect_changepoints_def
        df_empty_def index_names_def BOCPDDetector_init_def echo_def update_def dict_get_def)
  have n: "''capability'' \<in> set index_names"
    by (simp add: index_names_def)
  have s: "series (load_daily_indices ?db) ''capability'' = [Fin (2/10), Fin (6/10)]"
    by (simp only: load_daily_indices_def fetched) (simp add: DataFrame_def series_def)
  then have data: "series (load_daily_indices ?db) ''capability'' \<noteq> []"
    by simp
  have fd: "feed echo [Fin (2/10), Fin (6/10)] (BOCPDDetector_init echo 250) None =
       Inr (Some (Fin (6/10)),
            \<lparr>hazard = 250, detector = [Fin (6/10), Fin (2/10)],
             posterior_history = [[Fin (2/10)], [Fin (6/10), Fin (2/10)]]\<rparr>)"
    by (simp add: BOCPDDetector_init_def echo_def update_def)
  from feeds_loaded_rows [OF run n data] have
    sz: "length (fetchall ?db) = min 180 (length (daily_index ?db))" and
    all: "length (daily_index ?db) \<le> 180 \<longrightarrow> mset (fetchall ?db) = mset (daily_index ?db)"
    by blast+
  from all have all': "mset (fetchall ?db) = mset (daily_index ?db)"
    by simp
  have dates: "map date (fetchall ?db) = [0, 1, 2]"
    by (simp only: fetched) simp
  from sz have three: "length (fetchall ?db) = 3"
    by simp
  from run have r: "fst (detect_changepoints echo (load_daily_indices ?db) ?db) = Inr (Some ?res)"
    by (simp only: fst_conv)
  from dates three all' s r fd show ?thesis
    by blast
qed

section \<open>Numerical failure\<close>

text \<open>
  C2.  With the engine of the specification under the detector: when a sequence has
  been fed without failure up to some step and the total unnormalized mass of the next
  step is at most the threshold, \<^verbatim>\<open>update\<close> returns no probability for that step; it
  raises the engine's underflow failure, a kind of its own among the exceptions, and
  leaves the detector and its history as they were.  Feeding any sequence that goes
  through that step ends there with this failure.
\<close>

theorem underflow_reported:
  assumes "feed (spec_engine pm eps) pre (BOCPDDetector_init (spec_engine pm eps) h) None
             = Inr (p, d)"
    and "total_mass pm x (detector d) \<le> eps"
  shows "update (spec_engine pm eps) (Scalar x) d = (Inl (EngineError NumericalUnderflow), d)
       \<and> feed (spec_engine pm eps) (pre @ x # post) (BOCPDDetector_init (spec_engine pm eps) h) None
           = Inl (EngineError NumericalUnderflow)"
proof -
  have u: "update (spec_engine pm eps) (Scalar x) d = (Inl (EngineError NumericalUnderflow), d)"
    using assms(2) by (simp add: update_def spec_engine_def engine_step_def)
  then show ?thesis
    using assms(1) by (simp add: feed_append)
qed

theorem underflow_reported_witness:
  "feed (spec_engine spike (1 / 1000000)) [Fin 0]
        (BOCPDDetector_init (spec_engine spike (1 / 1000000)) 250) None
     = Inr (Some (Fin (1 / 250)),
            \<lparr>hazard = 250,
             detector = \<lparr>lam = 250, run_posterior = [1 / 250, 249 / 250], hypotheses = [(), ()]\<rparr>,
             posterior_history = [[Fin (1 / 250), Fin (249 / 250)]]\<rparr>)
   \<and> total_mass spike (Fin 5)
        \<lparr>lam = 250, run_posterior = [1 / 250, 249 / 250], hypotheses = [(), ()]\<rparr> = 0
   \<and> feed (spec_engine spike (1 / 1000000)) [Fin 0, Fin 5, Fin 0]
        (BOCPDDetector_init (spec_engine spike (1 / 1000000)) 250) None
     = Inl (EngineError NumericalUnderflow)"
proof -
  let ?eng = "spec_engine spike (1 / 1000000)"
  let ?s = "\<lparr>lam = 250, run_posterior = [1 / 250, 249 / 250], hypotheses = [(), ()]\<rparr>"
  let ?d = "\<lparr>hazard = 250, detector = ?s,
             posterior_history = [[Fin (1 / 250), Fin (249 / 250)]]\<rparr>"
  have a: "feed ?eng [Fin 0] (BOCPDDetector_init ?eng 250) None = Inr (Some (Fin (1 / 250)), ?d)"
    by (simp add: BOCPDDetector_init_def update_def spec_engine_def engine_step_def
        engine_init_def total_mass_def unnormalized_def changepoint_mass_def growth_def
        weighted_def constant_hazard_def spike_def)
  have t: "total_mass spike (Fin 5) ?s = 0"
    by (simp add: total_mass_def unnormalized_def changepoint_mass_def growth_def
        weighted_def constant_hazard_def spike_def)
  then have b: "total_mass spike (Fin 5) (detector ?d) \<le> 1 / 1000000"
    by simp
  from underflow_reported [OF a b, of "[Fin 0]"] a t show ?thesis
    by simp
qed

end
